theory Spec2Isabelle
  imports Complex_Main "HOL-Library.Sublist"
begin

section \<open>Strings of the source language\<close>

text \<open>
  The program is TypeScript (\<^verbatim>\<open>src/extensions/find-my-ping/src/devices.tsx\<close>). A
  JavaScript string is a sequence of UTF-16 code units. The model keeps the code units
  \<open>0\<close> to \<open>255\<close> (the Latin-1 range, which holds every character the program itself
  writes): a string is a \<open>char list\<close>, \<open>length\<close> counts code units as \<^verbatim>\<open>.length\<close>
  does, and the built-in string operations below are given on that range.
\<close>

abbreviation dquote :: char where
  "dquote \<equiv> CHR 0x22"

abbreviation backslash :: char where
  "backslash \<equiv> CHR 0x5C"

abbreviation newline :: char where
  "newline \<equiv> CHR 0x0A"

text \<open>
  \<^verbatim>\<open>s.split(sep)\<close> for a one-character separator: the pieces between the separators,
  in order. The result is never empty; \<^verbatim>\<open>"".split("+")\<close> is \<^verbatim>\<open>[""]\<close>.
\<close>

fun js_split :: "char \<Rightarrow> string \<Rightarrow> string list" where
  "js_split sep [] = [[]]"
| "js_split sep (c # cs) =
     (if c = sep then [] # js_split sep cs
      else (c # hd (js_split sep cs)) # tl (js_split sep cs))"

text \<open>
  \<^verbatim>\<open>s.toLowerCase()\<close> on the Latin-1 range: the letters \<open>A\<close> to \<open>Z\<close> and the
  accented capitals \<open>0xC0\<close> to \<open>0xDE\<close> (but not the multiplication sign \<open>0xD7\<close>) move
  up by 32, every other code unit stays.
\<close>

definition toLowerChar :: "char \<Rightarrow> char" where
  "toLowerChar c =
     (let n = (of_char c :: nat)
      in if (65 \<le> n \<and> n \<le> 90) \<or> (192 \<le> n \<and> n \<le> 222 \<and> n \<noteq> 215)
         then char_of (n + 32) else c)"

definition toLowerCase :: "string \<Rightarrow> string" where
  "toLowerCase s = map toLowerChar s"

text \<open>\<^verbatim>\<open>s.startsWith(p)\<close>.\<close>

definition startsWith :: "string \<Rightarrow> string \<Rightarrow> bool" where
  "startsWith s p = prefix p s"

text \<open>
  \<^verbatim>\<open>s.trim()\<close>: white space and line terminators are removed at both ends. On the
  Latin-1 range these are tab, line feed, vertical tab, form feed, carriage return,
  space and the no-break space \<open>0xA0\<close>.
\<close>

definition isWhiteSpace :: "char \<Rightarrow> bool" where
  "isWhiteSpace c = (c \<in> set [CHR 0x09, CHR 0x0A, CHR 0x0B, CHR 0x0C, CHR 0x0D, CHR 0x20, CHR 0xA0])"

definition trim :: "string \<Rightarrow> string" where
  "trim s = rev (dropWhile isWhiteSpace (rev (dropWhile isWhiteSpace s)))"

text \<open>\<^verbatim>\<open>parts.join(sep)\<close>.\<close>

fun join :: "string \<Rightarrow> string list \<Rightarrow> string" where
  "join sep [] = []"
| "join sep [x] = x"
| "join sep (x # y # ys) = x @ sep @ join sep (y # ys)"

text \<open>
  \<^verbatim>\<open>String(n)\<close> and the interpolation \<^verbatim>\<open>${n}\<close> of a non-negative integer below
  \<open>10\<^sup>2\<^sup>1\<close>: its decimal digits.
\<close>

definition digit :: "nat \<Rightarrow> char" where
  "digit d = char_of (48 + d)"

fun showNat :: "nat \<Rightarrow> string" where
  "showNat n = (if n < 10 then [digit n] else showNat (n div 10) @ [digit (n mod 10)])"

text \<open>The equation of \<open>showNat\<close> is recursive without a pattern; it is unfolded by hand
  only.\<close>

declare showNat.simps [simp del]

section \<open>Escaping for the script text\<close>

text \<open>
  \<^verbatim>\<open>input.replace(/[\\"]/g, "\\$&")\<close> (lines 43 to 45). The pattern is a character
  class, so every match is one code unit, and with the flag \<^verbatim>\<open>g\<close> each match from
  left to right is replaced by the expansion of the replacement template, in which
  \<^verbatim>\<open>$&\<close> stands for the matched text and \<^verbatim>\<open>$$\<close> for a dollar sign. The template
  here is the three code units backslash, dollar, ampersand.
\<close>

fun expandReplacement :: "string \<Rightarrow> string \<Rightarrow> string" where
  "expandReplacement [] matched = []"
| "expandReplacement [c] matched = [c]"
| "expandReplacement (c # d # t) matched =
     (if c = CHR ''$'' \<and> d = CHR ''&'' then matched @ expandReplacement t matched
      else if c = CHR ''$'' \<and> d = CHR ''$'' then CHR ''$'' # expandReplacement t matched
      else c # expandReplacement (d # t) matched)"

fun replaceClass :: "(char \<Rightarrow> bool) \<Rightarrow> string \<Rightarrow> string \<Rightarrow> string" where
  "replaceClass cls template [] = []"
| "replaceClass cls template (c # cs) =
     (if cls c then expandReplacement template [c] else [c]) @ replaceClass cls template cs"

definition sanitizeForAppleScript :: "string \<Rightarrow> string" where
  "sanitizeForAppleScript input =
     replaceClass (\<lambda>c. c = backslash \<or> c = dquote) [backslash, CHR ''$'', CHR ''&''] input"

text \<open>
  The escaping as the specification words it: each backslash and each double quote gets
  one backslash in front, every other character is copied.
\<close>

definition escape_spec :: "string \<Rightarrow> string" where
  "escape_spec s = concat (map (\<lambda>c. if c = backslash \<or> c = dquote then [backslash, c] else [c]) s)"

section \<open>Property lookup in an object literal\<close>

text \<open>
  \<open>modifierMap\<close> and \<open>keycodeMap\<close> are object literals read with \<^verbatim>\<open>obj[k]\<close> for a
  string \<open>k\<close> that the user typed. Such a read finds the literal's own properties, and
  after them the members every object inherits from \<^verbatim>\<open>Object.prototype\<close>; only for a
  name that is neither does it give \<^verbatim>\<open>undefined\<close>. The inherited members are
  functions, and \<^verbatim>\<open>__proto__\<close> is the prototype object itself, so all of them are
  truthy.
\<close>

datatype 'a property = Own 'a | Inherited string | Undefined

definition objectPrototypeNames :: "string list" where
  "objectPrototypeNames =
     [''constructor'', ''__defineGetter__'', ''__defineSetter__'', ''hasOwnProperty'',
      ''__lookupGetter__'', ''__lookupSetter__'', ''isPrototypeOf'',
      ''propertyIsEnumerable'', ''toString'', ''valueOf'', ''__proto__'',
      ''toLocaleString'']"

definition lookup :: "(string \<times> 'a) list \<Rightarrow> string \<Rightarrow> 'a property" where
  "lookup obj k =
     (case map_of obj k of
        Some v \<Rightarrow> Own v
      | None \<Rightarrow> if k \<in> set objectPrototypeNames then Inherited k else Undefined)"

text \<open>
  The text a template literal gives for an inherited member: a built-in function prints
  as its native-code form (the constructor under its name \<open>Object\<close>; the spelling is
  the one of V8, the engine of the host), the prototype object as
  \<^verbatim>\<open>[object Object]\<close>.
\<close>

definition inheritedText :: "string \<Rightarrow> string" where
  "inheritedText p =
     (if p = ''__proto__'' then ''[object Object]''
      else ''function '' @ (if p = ''constructor'' then ''Object'' else p) @ ''() { [native code] }'')"

section \<open>Parsing a keybind\<close>

text \<open>\<open>parseHotkey\<close>, lines 30 to 41.\<close>

record ParsedKeybind =
  key :: string
  modifiers :: "string list"

definition modifierMap :: "(string \<times> string) list" where
  "modifierMap =
     [(''cmd'', ''command''), (''ctrl'', ''control''), (''opt'', ''option''), (''shift'', ''shift'')]"

text \<open>
  \<^verbatim>\<open>`${modifierMap[m] || m} down`\<close>: the looked-up value when it is truthy (a string
  is truthy when it is not empty), else the token itself.
\<close>

definition modifierText :: "string \<Rightarrow> string" where
  "modifierText m =
     (case lookup modifierMap m of
        Own v \<Rightarrow> if v \<noteq> [] then v else m
      | Inherited p \<Rightarrow> inheritedText p
      | Undefined \<Rightarrow> m) @ '' down''"

definition parseHotkey :: "string \<Rightarrow> ParsedKeybind" where
  "parseHotkey hotkey =
     (let parts = js_split CHR ''+'' hotkey
      in \<lparr>key = last parts, modifiers = map modifierText (butlast parts)\<rparr>)"

section \<open>Validation\<close>

text \<open>\<open>validateKeybind\<close>, lines 55 to 77. The \<^verbatim>\<open>for\<close> loop over the modifiers returns at
  the first token whose lower-cased form is not in \<open>validModifiers\<close>.\<close>

definition validModifiers :: "string list" where
  "validModifiers = [''cmd'', ''ctrl'', ''opt'', ''shift'']"

definition supportedKeys :: "string list" where
  "supportedKeys = [''f13'', ''f14'', ''f15'', ''f16'', ''f17'', ''f18'', ''f19'', ''f20'']"

fun checkModifiers :: "string list \<Rightarrow> string option" where
  "checkModifiers [] = None"
| "checkModifiers (m # ms) =
     (if toLowerCase m \<notin> set validModifiers then Some (''Invalid modifier: '' @ m)
      else checkModifiers ms)"

definition validateKeybind :: "string \<Rightarrow> string option" where
  "validateKeybind v =
     (if v = [] then Some ''Keybind cannot be empty''
      else
        let parts = js_split CHR ''+'' v
        in if length parts < 2 then Some ''Keybind must have modifiers (e.g., cmd+f13)''
           else
             let k = toLowerCase (last parts); mods = butlast parts
             in case checkModifiers mods of
                  Some e \<Rightarrow> Some e
                | None \<Rightarrow>
                    if k \<notin> set supportedKeys \<and> length k \<noteq> 1
                    then Some ''Key must be f13-f20 or a single character''
                    else None)"

text \<open>\<open>validateDeviceName\<close>, lines 79 to 84; the test \<^verbatim>\<open>/[";\\]/.test(name)\<close> holds
  when some code unit of the name is in the class.\<close>

definition validateDeviceName :: "string \<Rightarrow> string option" where
  "validateDeviceName n =
     (if trim n = [] then Some ''Name required''
      else if length n > 50 then Some ''Name too long''
      else if list_ex (\<lambda>c. c = dquote \<or> c = CHR '';'' \<or> c = backslash) n
        then Some ''Invalid characters''
      else None)"

text \<open>
  \<open>validateDelay\<close>, lines 47 to 53. A JavaScript number is a binary64 value: not a
  number, an infinity, or a finite value, which is a rational (the two zeros compare and
  print alike, and are one value here). \<^verbatim>\<open>parseFloat\<close> and the conversion of a number
  to text are built-ins of the runtime, not code of this program: the program is modelled
  for any runtime, given as a record of the two.
\<close>

datatype number = NaN | NegInfinity | Finite rat | PosInfinity

record runtime =
  parseFloat :: "string \<Rightarrow> number"
  numberToString :: "number \<Rightarrow> string"

definition isNaN :: "number \<Rightarrow> bool" where
  "isNaN x = (x = NaN)"

text \<open>\<^verbatim>\<open>x < q\<close> and \<^verbatim>\<open>x > q\<close> for a finite literal \<open>q\<close>; every comparison with
  \<open>NaN\<close> is false.\<close>

fun lessThan_num :: "number \<Rightarrow> rat \<Rightarrow> bool" where
  "lessThan_num NaN q = False"
| "lessThan_num NegInfinity q = True"
| "lessThan_num (Finite x) q = (x < q)"
| "lessThan_num PosInfinity q = False"

fun greaterThan_num :: "number \<Rightarrow> rat \<Rightarrow> bool" where
  "greaterThan_num NaN q = False"
| "greaterThan_num NegInfinity q = False"
| "greaterThan_num (Finite x) q = (x > q)"
| "greaterThan_num PosInfinity q = True"

definition validateDelay :: "runtime \<Rightarrow> string \<Rightarrow> string option" where
  "validateDelay rt v =
     (let num = parseFloat rt v
      in if isNaN num then Some ''Delay must be a number''
         else if lessThan_num num 0 then Some ''Delay cannot be negative''
         else if greaterThan_num num 10 then Some ''Delay cannot exceed 10 seconds''
         else None)"

section \<open>Sending the key events\<close>

text \<open>
  What an action does is the list of its calls to the host, in order: the toasts, the
  countdown and the scripts given to \<^verbatim>\<open>runAppleScript\<close>, the automation bridge. The
  bridge call either completes or throws; what it throws is an \<^verbatim>\<open>Error\<close> with its
  message, or some other value. The other host calls are taken to complete.
\<close>

datatype style = Animated | Success | Failure

datatype event =
    CloseMainWindow
  | ShowToast style string "string option"
  | ToastTitle string
  | Sleep nat
  | HideToast
  | RunAppleScript string

datatype thrown = Error string | NonError

type_synonym bridge = "string \<Rightarrow> thrown option"

definition keycodeMap :: "(string \<times> nat) list" where
  "keycodeMap =
     [(''f13'', 105), (''f14'', 107), (''f15'', 113), (''f16'', 106),
      (''f17'', 64), (''f18'', 79), (''f19'', 80), (''f20'', 90)]"

text \<open>\<^verbatim>\<open>!keycode\<close>: \<^verbatim>\<open>undefined\<close> and the number zero are falsy.\<close>

fun falsy :: "nat property \<Rightarrow> bool" where
  "falsy (Own n) = (n = 0)"
| "falsy (Inherited p) = False"
| "falsy Undefined = True"

text \<open>\<^verbatim>\<open>${keycode}\<close> for a truthy key code.\<close>

fun keycodeText :: "nat property \<Rightarrow> string" where
  "keycodeText (Own n) = showNat n"
| "keycodeText (Inherited p) = inheritedText p"
| "keycodeText Undefined = ''undefined''"

text \<open>
  The test \<^verbatim>\<open>!keycode && key.toLowerCase().startsWith("f")\<close> and the two lines that
  build the key command stand in \<open>simulateKeybind\<close> (lines 101 to 108) and again, letter
  for letter, in \<open>pingDevice\<close> (lines 318 to 330).
\<close>

definition unsupportedFunctionKey :: "nat property \<Rightarrow> string \<Rightarrow> bool" where
  "unsupportedFunctionKey keycode k = (falsy keycode \<and> startsWith (toLowerCase k) ''f'')"

definition modifierString :: "string list \<Rightarrow> string" where
  "modifierString mods =
     (if length mods > 0 then '' using {'' @ join '', '' mods @ ''}'' else [])"

definition keyCommand :: "nat property \<Rightarrow> string \<Rightarrow> string list \<Rightarrow> string" where
  "keyCommand keycode k mods =
     (if \<not> falsy keycode then ''key code '' @ keycodeText keycode @ modifierString mods
      else ''keystroke '' @ [dquote] @ k @ [dquote] @ modifierString mods)"

text \<open>The countdown of \<open>simulateKeybind\<close>, lines 115 to 118: \<open>i\<close> runs from 9 down to
  0, each round sets the toast's title and waits a second.\<close>

fun countdown :: "nat \<Rightarrow> event list" where
  "countdown 0 = [ToastTitle (''Simulating in '' @ showNat 1 @ '' seconds...''), Sleep 1000]"
| "countdown (Suc i) =
     [ToastTitle (''Simulating in '' @ showNat (Suc i + 1) @ '' seconds...''), Sleep 1000]
     @ countdown i"

definition simulateScript :: "string \<Rightarrow> string" where
  "simulateScript cmd =
     [newline] @ ''  tell application '' @ [dquote] @ ''System Events'' @ [dquote] @ [newline]
     @ ''    '' @ cmd @ [newline]
     @ ''  end tell'' @ [newline]"

text \<open>\<open>simulateKeybind\<close>, lines 86 to 132: the calls made, and what the action throws
  (nothing catches inside it).\<close>

definition simulateKeybind :: "bridge \<Rightarrow> string \<Rightarrow> event list \<times> thrown option" where
  "simulateKeybind runAppleScript keybindString =
     (let p = parseHotkey keybindString;
          keycode = lookup keycodeMap (toLowerCase (key p))
      in if unsupportedFunctionKey keycode (key p)
         then ([CloseMainWindow],
               Some (Error (''Unsupported function key: '' @ key p
                            @ ''. Only f13-f20 are supported.'')))
         else
           let script = simulateScript (keyCommand keycode (key p) (modifiers p));
               before = [CloseMainWindow, ShowToast Animated ''Simulating in 10 seconds...'' None]
                        @ countdown 9 @ [HideToast, RunAppleScript script]
           in case runAppleScript script of
                Some e \<Rightarrow> (before, Some e)
              | None \<Rightarrow> (before @ [ShowToast Success ''Keybind simulated'' None], None))"

definition pingScript :: "string \<Rightarrow> string \<Rightarrow> string \<Rightarrow> string" where
  "pingScript cmd delayText deviceText =
     [newline] @ ''    tell application '' @ [dquote] @ ''System Events'' @ [dquote] @ [newline]
     @ ''      '' @ cmd @ [newline]
     @ ''    end tell'' @ [newline]
     @ ''    delay '' @ delayText @ [newline]
     @ ''    tell application '' @ [dquote] @ ''System Events'' @ [dquote] @ [newline]
     @ ''      keystroke '' @ [dquote] @ ''ping my '' @ deviceText @ [dquote] @ [newline]
     @ ''      delay 0.3'' @ [newline]
     @ ''      key code 36'' @ [newline]
     @ ''    end tell'' @ [newline]
     @ ''  ''"

text \<open>\<^verbatim>\<open>saved || fallback\<close> for a stored item: a missing item is \<^verbatim>\<open>undefined\<close>, and
  the empty string is falsy too.\<close>

fun orElse :: "string option \<Rightarrow> string \<Rightarrow> string" where
  "orElse None d = d"
| "orElse (Some s) d = (if s = [] then d else s)"

text \<open>
  \<open>pingDevice\<close>, lines 297 to 362. \<open>savedKeybind\<close> and \<open>savedDelay\<close> are what local
  storage holds under \<^verbatim>\<open>siriKeybind\<close> and \<^verbatim>\<open>siriDelay\<close>. The \<^verbatim>\<open>catch\<close> turns what
  the bridge throws into the last toast, so the action itself throws nothing.
\<close>

definition pingDevice ::
  "runtime \<Rightarrow> bridge \<Rightarrow> string option \<Rightarrow> string option \<Rightarrow> string \<Rightarrow> event list" where
  "pingDevice rt runAppleScript savedKeybind savedDelay deviceName =
     (let keybind = orElse savedKeybind ''cmd+f13'';
          delay = parseFloat rt (orElse savedDelay ''1'');
          p = parseHotkey keybind;
          keycode = lookup keycodeMap (toLowerCase (key p))
      in if unsupportedFunctionKey keycode (key p)
         then [ShowToast Failure ''Unsupported function key''
                 (Some (key p @ '' is not supported. Only f13-f20 are supported.''))]
         else
           let script = pingScript (keyCommand keycode (key p) (modifiers p))
                          (numberToString rt delay) (sanitizeForAppleScript deviceName);
               before = [ShowToast Animated ''Pinging device...'' (Some deviceName),
                         RunAppleScript script]
           in case runAppleScript script of
                None \<Rightarrow> before @ [ShowToast Success ''Ping sent'' (Some deviceName)]
              | Some e \<Rightarrow>
                  before @ [ShowToast Failure ''Failed to ping device''
                              (Some (case e of Error m \<Rightarrow> m
                                     | NonError \<Rightarrow> ''Unknown error occurred''))])"

text \<open>The scripts an action has given to the bridge.\<close>

fun scriptsSent :: "event list \<Rightarrow> string list" where
  "scriptsSent [] = []"
| "scriptsSent (RunAppleScript s # es) = s # scriptsSent es"
| "scriptsSent (e # es) = scriptsSent es"

text \<open>
  A sample runtime and a sample bridge, to run the actions on concrete inputs. The
  runtime reads the decimal digits at the start of a text, after an optional minus
  sign, as that integer (which is what \<^verbatim>\<open>parseFloat\<close> gives when neither a point nor
  an exponent follows the digits) and a text without such a start as \<open>NaN\<close>, and it
  prints an integer in decimal. The bridge completes every script.
\<close>

definition isDigit :: "char \<Rightarrow> bool" where
  "isDigit c = (48 \<le> (of_char c :: nat) \<and> (of_char c :: nat) \<le> 57)"

definition digitsValue :: "string \<Rightarrow> nat" where
  "digitsValue ds = foldl (\<lambda>acc c. 10 * acc + (of_char c - 48)) 0 ds"

definition sampleParseFloat :: "string \<Rightarrow> number" where
  "sampleParseFloat s =
     (let negative = (s \<noteq> [] \<and> hd s = CHR ''-'');
          ds = takeWhile isDigit (if negative then tl s else s)
      in if ds = [] then NaN
         else if negative then Finite (- of_nat (digitsValue ds))
         else Finite (of_nat (digitsValue ds)))"

fun sampleNumberToString :: "number \<Rightarrow> string" where
  "sampleNumberToString NaN = ''NaN''"
| "sampleNumberToString NegInfinity = ''-Infinity''"
| "sampleNumberToString PosInfinity = ''Infinity''"
| "sampleNumberToString (Finite x) =
     (if x < 0 then ''-'' else []) @ showNat (nat \<lfloor>\<bar>x\<bar>\<rfloor>)"

definition sampleRuntime :: runtime where
  "sampleRuntime = \<lparr>parseFloat = sampleParseFloat, numberToString = sampleNumberToString\<rparr>"

definition sampleBridge :: bridge where
  "sampleBridge script = None"

section \<open>The device list\<close>

text \<open>
  \<open>addDevice\<close> and \<open>removeDevice\<close>, lines 284 to 295, on the list the component holds
  (and stores). The new device's id is \<^verbatim>\<open>String(Date.now())\<close>: \<open>now\<close> is the clock's
  reading, in milliseconds, at the call.
\<close>

record Device =
  id' :: string
  name :: string
  icon :: string

definition addDevice :: "nat \<Rightarrow> Device list \<Rightarrow> string \<Rightarrow> string \<Rightarrow> Device list" where
  "addDevice now devices n i = devices @ [\<lparr>id' = showNat now, name = n, icon = i\<rparr>]"

definition removeDevice :: "Device list \<Rightarrow> string \<Rightarrow> Device list" where
  "removeDevice devices i = filter (\<lambda>d. id' d \<noteq> i) devices"

text \<open>The user's actions on the list, each add with the clock's reading at that moment,
  and the list after a sequence of them.\<close>

datatype action = Add nat string string | Remove string

fun perform :: "Device list \<Rightarrow> action \<Rightarrow> Device list" where
  "perform devices (Add now n i) = addDevice now devices n i"
| "perform devices (Remove i) = removeDevice devices i"

definition run :: "action list \<Rightarrow> Device list" where
  "run acts = foldl perform [] acts"

text \<open>The devices a sequence of actions has inserted, in the order of insertion, and
  the clock readings of its adds.\<close>

fun inserted :: "action list \<Rightarrow> Device list" where
  "inserted [] = []"
| "inserted (Add now n i # acts) = \<lparr>id' = showNat now, name = n, icon = i\<rparr> # inserted acts"
| "inserted (Remove i # acts) = inserted acts"

fun clocks :: "action list \<Rightarrow> nat list" where
  "clocks [] = []"
| "clocks (Add now n i # acts) = now # clocks acts"
| "clocks (Remove i # acts) = clocks acts"

text \<open>Every add of the sequence, run from the given list, reads a clock value whose text
  is not the id of a device in the list at that moment.\<close>

fun freshAdds :: "Device list \<Rightarrow> action list \<Rightarrow> bool" where
  "freshAdds devices [] = True"
| "freshAdds devices (Add now n i # acts) =
     (showNat now \<notin> set (map id' devices) \<and> freshAdds (addDevice now devices n i) acts)"
| "freshAdds devices (Remove i # acts) = freshAdds (removeDevice devices i) acts"

section \<open>Facts about the string operations\<close>

lemma js_split_not_Nil: "js_split sep s \<noteq> []"
  by (induction s) simp_all

lemma join_js_split: "join [sep] (js_split sep s) = s"
proof (induction s)
  case Nil
  show ?case by simp
next
  case (Cons c cs)
  obtain p ps where "js_split sep cs = p # ps"
    using js_split_not_Nil [of sep cs] by (cases "js_split sep cs") auto
  with Cons show ?case
    by (cases ps) auto
qed

lemma js_split_no_sep: "list_all (\<lambda>p. sep \<notin> set p) (js_split sep s)"
proof (induction s)
  case Nil
  show ?case by simp
next
  case (Cons c cs)
  obtain p ps where "js_split sep cs = p # ps"
    using js_split_not_Nil [of sep cs] by (cases "js_split sep cs") auto
  with Cons show ?case by auto
qed

lemma length_toLowerCase: "length (toLowerCase s) = length s"
  by (simp add: toLowerCase_def)

lemma trim_Nil: "(trim s = []) = list_all isWhiteSpace s"
proof -
  have "(dropWhile isWhiteSpace (rev (dropWhile isWhiteSpace s)) = [])
        = (dropWhile isWhiteSpace s = [])"
  proof (cases "dropWhile isWhiteSpace s")
    case Nil
    show ?thesis unfolding Nil by simp
  next
    case (Cons c cs)
    then have "\<not> isWhiteSpace c"
      using hd_dropWhile [of isWhiteSpace s] by simp
    with Cons show ?thesis
      by (auto simp: dropWhile_eq_Nil_conv)
  qed
  moreover have "(trim s = []) = (dropWhile isWhiteSpace (rev (dropWhile isWhiteSpace s)) = [])"
    by (simp add: trim_def)
  moreover have "(dropWhile isWhiteSpace s = []) = list_all isWhiteSpace s"
    by (simp add: dropWhile_eq_Nil_conv list_all_iff)
  ultimately show ?thesis by simp
qed

text \<open>\<open>showNat\<close> is one to one: reading the digits back gives the number.\<close>

lemma of_char_digit: "d < 10 \<Longrightarrow> of_char (digit d) - 48 = (d::nat)"
  by (simp add: digit_def)

lemma digitsValue_snoc: "digitsValue (ds @ [c]) = 10 * digitsValue ds + (of_char c - 48)"
  by (simp add: digitsValue_def)

lemma digitsValue_showNat: "digitsValue (showNat n) = n"
proof (induction n rule: showNat.induct)
  case (1 n)
  show ?case
  proof (cases "n < 10")
    case True
    then show ?thesis
      by (simp add: showNat.simps [of n] digitsValue_def of_char_digit)
  next
    case False
    with "1" have "digitsValue (showNat (n div 10)) = n div 10" by simp
    with False show ?thesis
      by (simp add: showNat.simps [of n] digitsValue_snoc of_char_digit)
  qed
qed

lemma showNat_inj: "showNat a = showNat b \<Longrightarrow> a = b"
  by (metis digitsValue_showNat)

lemma inj_showNat: "inj showNat"
  by (rule injI) (rule showNat_inj)

section \<open>Escaping and validation of names and delays\<close>

text \<open>
  C10. For every string, \<open>sanitizeForAppleScript\<close> returns the string with one backslash
  put in front of each backslash and each double quote, and every other character
  (a single quote too) unchanged.
\<close>

theorem sanitizeForAppleScript_escapes:
  "sanitizeForAppleScript s = escape_spec s"
  unfolding sanitizeForAppleScript_def escape_spec_def
  by (induction s) simp_all

text \<open>
  C9. \<open>validateDeviceName\<close> returns an error exactly when the name is empty or all white
  space, or longer than 50 characters, or holds a double quote, a semicolon or a
  backslash. So the empty name and every name of 51 characters are refused,
  \<^verbatim>\<open>Sophie's iPhone\<close> is accepted, and every name with a double quote is refused.
\<close>

theorem validateDeviceName_iff:
  "(validateDeviceName n \<noteq> None) =
     (list_all isWhiteSpace n \<or> 50 < length n
      \<or> dquote \<in> set n \<or> CHR '';'' \<in> set n \<or> backslash \<in> set n)
   \<and> validateDeviceName [] = Some ''Name required''
   \<and> (length n = 51 \<longrightarrow> validateDeviceName n \<noteq> None)
   \<and> validateDeviceName ''Sophie's iPhone'' = None
   \<and> (dquote \<in> set n \<longrightarrow> validateDeviceName n \<noteq> None)"
proof -
  have iff: "(validateDeviceName n \<noteq> None) =
     (list_all isWhiteSpace n \<or> 50 < length n
      \<or> dquote \<in> set n \<or> CHR '';'' \<in> set n \<or> backslash \<in> set n)"
    by (auto simp: validateDeviceName_def trim_Nil list_ex_iff)
  have empty: "validateDeviceName [] = Some ''Name required''"
    by (simp add: validateDeviceName_def trim_def)
  have sophie: "validateDeviceName ''Sophie's iPhone'' = None"
    by code_simp
  from iff empty sophie show ?thesis by simp
qed

theorem validateDeviceName_iff_witness:
  "length (replicate 51 CHR ''a'') = 51
   \<and> validateDeviceName (replicate 51 CHR ''a'') \<noteq> None
   \<and> dquote \<in> set (''Sophie'' @ [dquote] @ ''s'')
   \<and> validateDeviceName (''Sophie'' @ [dquote] @ ''s'') \<noteq> None"
proof -
  have h1: "length (replicate 51 CHR ''a'') = 51" by simp
  have h2: "dquote \<in> set (''Sophie'' @ [dquote] @ ''s'')" by simp
  have c1: "validateDeviceName (replicate 51 CHR ''a'') \<noteq> None"
    using validateDeviceName_iff [of "replicate 51 CHR ''a''"] h1 by blast
  have c2: "validateDeviceName (''Sophie'' @ [dquote] @ ''s'') \<noteq> None"
    using validateDeviceName_iff [of "''Sophie'' @ [dquote] @ ''s''"] h2 by blast
  from h1 h2 c1 c2 show ?thesis by blast
qed

text \<open>
  C8. \<open>validateDelay\<close> returns an error exactly when the text does not parse to a number
  (\<open>NaN\<close>), or parses to a number below zero, or to a number above 10 (the infinities
  are below zero and above 10). So in a runtime where \<^verbatim>\<open>parseFloat\<close> reads \<^verbatim>\<open>1\<close>,
  \<^verbatim>\<open>-1\<close> and \<^verbatim>\<open>11\<close> as these numbers and \<^verbatim>\<open>abc\<close> as \<open>NaN\<close>, the first is
  accepted and the other three are refused.
\<close>

theorem validateDelay_iff:
  "(validateDelay rt v \<noteq> None) =
     (case parseFloat rt v of
        NaN \<Rightarrow> True
      | NegInfinity \<Rightarrow> True
      | Finite x \<Rightarrow> x < 0 \<or> 10 < x
      | PosInfinity \<Rightarrow> True)
   \<and> (parseFloat rt ''1'' = Finite 1 \<longrightarrow> validateDelay rt ''1'' = None)
   \<and> (parseFloat rt ''-1'' = Finite (- 1) \<longrightarrow> validateDelay rt ''-1'' \<noteq> None)
   \<and> (parseFloat rt ''11'' = Finite 11 \<longrightarrow> validateDelay rt ''11'' \<noteq> None)
   \<and> (parseFloat rt ''abc'' = NaN \<longrightarrow> validateDelay rt ''abc'' \<noteq> None)"
proof -
  have "(validateDelay rt v \<noteq> None) =
     (case parseFloat rt v of
        NaN \<Rightarrow> True
      | NegInfinity \<Rightarrow> True
      | Finite x \<Rightarrow> x < 0 \<or> 10 < x
      | PosInfinity \<Rightarrow> True)"
    by (cases "parseFloat rt v") (simp_all add: validateDelay_def isNaN_def)
  then show ?thesis
    by (simp add: validateDelay_def isNaN_def)
qed

theorem validateDelay_iff_witness:
  "parseFloat sampleRuntime ''1'' = Finite 1
   \<and> validateDelay sampleRuntime ''1'' = None
   \<and> parseFloat sampleRuntime ''-1'' = Finite (- 1)
   \<and> validateDelay sampleRuntime ''-1'' \<noteq> None
   \<and> parseFloat sampleRuntime ''11'' = Finite 11
   \<and> validateDelay sampleRuntime ''11'' \<noteq> None
   \<and> parseFloat sampleRuntime ''abc'' = NaN
   \<and> validateDelay sampleRuntime ''abc'' \<noteq> None"
proof -
  have h1: "parseFloat sampleRuntime ''1'' = Finite 1" by code_simp
  have h2: "parseFloat sampleRuntime ''-1'' = Finite (- 1)" by code_simp
  have h3: "parseFloat sampleRuntime ''11'' = Finite 11" by code_simp
  have h4: "parseFloat sampleRuntime ''abc'' = NaN" by code_simp
  from h1 h2 h3 h4 validateDelay_iff [of sampleRuntime] show ?thesis by blast
qed

section \<open>Keybinds: validation and parsing\<close>

lemma checkModifiers_find:
  "checkModifiers ms =
     map_option (\<lambda>m. ''Invalid modifier: '' @ m)
       (find (\<lambda>m. toLowerCase m \<notin> set validModifiers) ms)"
  by (induction ms) simp_all

lemma checkModifiers_None:
  "(checkModifiers ms = None) = list_all (\<lambda>m. toLowerCase m \<in> set validModifiers) ms"
  by (induction ms) simp_all

lemma butlast_js_split_length:
  "butlast (js_split sep s) \<noteq> [] \<Longrightarrow> 2 \<le> length (js_split sep s) \<and> s \<noteq> []"
proof -
  assume a: "butlast (js_split sep s) \<noteq> []"
  then have "2 \<le> length (js_split sep s)"
    by (cases "js_split sep s" rule: rev_cases) (auto simp: Suc_le_eq)
  moreover from this have "s \<noteq> []" by auto
  ultimately show ?thesis by simp
qed

text \<open>
  C2, as the code has it. \<open>validateKeybind\<close> returns an error for the empty string and
  for every string with fewer than two tokens. The modifier tokens are compared after
  lower-casing: when some modifier token, lower-cased, is not one of \<open>cmd\<close>, \<open>ctrl\<close>,
  \<open>opt\<close>, \<open>shift\<close>, the error names the first such token, as typed. A string with at
  least one modifier token, all of them recognised in this way, and a last token that,
  lower-cased, is one of \<open>f13\<close> to \<open>f20\<close> or has length one, gets no error. So
  \<^verbatim>\<open>cmd+f13\<close> is accepted, \<^verbatim>\<open>f13\<close> and \<^verbatim>\<open>cmd+f21\<close> are refused.
\<close>

theorem validateKeybind_cases:
  "validateKeybind [] = Some ''Keybind cannot be empty''
   \<and> (length (js_split CHR ''+'' s) < 2 \<longrightarrow> validateKeybind s \<noteq> None)
   \<and> (m \<in> set (butlast (js_split CHR ''+'' s)) \<and> toLowerCase m \<notin> set validModifiers
        \<longrightarrow> (\<exists>m'. find (\<lambda>m. toLowerCase m \<notin> set validModifiers) (butlast (js_split CHR ''+'' s))
                     = Some m'
                  \<and> validateKeybind s = Some (''Invalid modifier: '' @ m')))
   \<and> (2 \<le> length (js_split CHR ''+'' s)
        \<and> list_all (\<lambda>m. toLowerCase m \<in> set validModifiers) (butlast (js_split CHR ''+'' s))
        \<and> (toLowerCase (last (js_split CHR ''+'' s)) \<in> set supportedKeys
             \<or> length (toLowerCase (last (js_split CHR ''+'' s))) = 1)
        \<longrightarrow> validateKeybind s = None)
   \<and> validateKeybind ''cmd+f13'' = None
   \<and> validateKeybind ''f13'' = Some ''Keybind must have modifiers (e.g., cmd+f13)''
   \<and> validateKeybind ''cmd+f21'' = Some ''Key must be f13-f20 or a single character''"
proof (intro conjI impI)
  show "validateKeybind [] = Some ''Keybind cannot be empty''"
    by (simp add: validateKeybind_def)
next
  assume "length (js_split CHR ''+'' s) < 2"
  then show "validateKeybind s \<noteq> None"
    by (simp add: validateKeybind_def Let_def)
next
  assume a: "m \<in> set (butlast (js_split CHR ''+'' s)) \<and> toLowerCase m \<notin> set validModifiers"
  then have "find (\<lambda>m. toLowerCase m \<notin> set validModifiers) (butlast (js_split CHR ''+'' s)) \<noteq> None"
    by (auto simp: find_None_iff)
  then obtain m' where
    f: "find (\<lambda>m. toLowerCase m \<notin> set validModifiers) (butlast (js_split CHR ''+'' s)) = Some m'"
    by auto
  from a have "butlast (js_split CHR ''+'' s) \<noteq> []" by auto
  then have "2 \<le> length (js_split CHR ''+'' s) \<and> s \<noteq> []"
    by (rule butlast_js_split_length)
  with f have "validateKeybind s = Some (''Invalid modifier: '' @ m')"
    by (simp add: validateKeybind_def Let_def checkModifiers_find)
  with f show "\<exists>m'. find (\<lambda>m. toLowerCase m \<notin> set validModifiers) (butlast (js_split CHR ''+'' s))
                     = Some m'
                  \<and> validateKeybind s = Some (''Invalid modifier: '' @ m')"
    by blast
next
  assume a: "2 \<le> length (js_split CHR ''+'' s)
        \<and> list_all (\<lambda>m. toLowerCase m \<in> set validModifiers) (butlast (js_split CHR ''+'' s))
        \<and> (toLowerCase (last (js_split CHR ''+'' s)) \<in> set supportedKeys
             \<or> length (toLowerCase (last (js_split CHR ''+'' s))) = 1)"
  then have "s \<noteq> []" by auto
  with a show "validateKeybind s = None"
    by (auto simp: validateKeybind_def Let_def checkModifiers_None [symmetric] length_toLowerCase)
next
  show "validateKeybind ''cmd+f13'' = None"
    by code_simp
next
  show "validateKeybind ''f13'' = Some ''Keybind must have modifiers (e.g., cmd+f13)''"
    by code_simp
next
  show "validateKeybind ''cmd+f21'' = Some ''Key must be f13-f20 or a single character''"
    by code_simp
qed

theorem validateKeybind_cases_witness:
  "length (js_split CHR ''+'' ''f13'') < 2
   \<and> validateKeybind ''f13'' \<noteq> None
   \<and> ''x'' \<in> set (butlast (js_split CHR ''+'' ''cmd+x+f13''))
   \<and> toLowerCase ''x'' \<notin> set validModifiers
   \<and> validateKeybind ''cmd+x+f13'' = Some ''Invalid modifier: x''
   \<and> 2 \<le> length (js_split CHR ''+'' ''ctrl+Shift+a'')
   \<and> list_all (\<lambda>m. toLowerCase m \<in> set validModifiers) (butlast (js_split CHR ''+'' ''ctrl+Shift+a''))
   \<and> length (toLowerCase (last (js_split CHR ''+'' ''ctrl+Shift+a''))) = 1
   \<and> validateKeybind ''ctrl+Shift+a'' = None"
proof -
  have h1: "length (js_split CHR ''+'' ''f13'') < 2"
    by code_simp
  have h2: "''x'' \<in> set (butlast (js_split CHR ''+'' ''cmd+x+f13''))
            \<and> toLowerCase ''x'' \<notin> set validModifiers"
    by code_simp
  have h2': "find (\<lambda>m. toLowerCase m \<notin> set validModifiers) (butlast (js_split CHR ''+'' ''cmd+x+f13''))
             = Some ''x''"
    by code_simp
  have h3: "2 \<le> length (js_split CHR ''+'' ''ctrl+Shift+a'')"
    by code_simp
  have h4: "list_all (\<lambda>m. toLowerCase m \<in> set validModifiers) (butlast (js_split CHR ''+'' ''ctrl+Shift+a''))"
    by code_simp
  have h5: "length (toLowerCase (last (js_split CHR ''+'' ''ctrl+Shift+a''))) = 1"
    by code_simp
  have c1: "validateKeybind ''f13'' \<noteq> None"
    using validateKeybind_cases [of "''f13''"] h1 by blast
  have "\<exists>m'. find (\<lambda>m. toLowerCase m \<notin> set validModifiers) (butlast (js_split CHR ''+'' ''cmd+x+f13''))
                = Some m'
             \<and> validateKeybind ''cmd+x+f13'' = Some (''Invalid modifier: '' @ m')"
    using validateKeybind_cases [of "''cmd+x+f13''" "''x''"] h2 by blast
  with h2' have c2: "validateKeybind ''cmd+x+f13'' = Some ''Invalid modifier: x''"
    by auto
  have c3: "validateKeybind ''ctrl+Shift+a'' = None"
    using validateKeybind_cases [of "''ctrl+Shift+a''"] h3 h4 h5 by blast
  show ?thesis
    using h1 h2 h3 h4 h5 c1 c2 c3 by blast
qed

text \<open>
  C2 as the claim words it fails: \<^verbatim>\<open>CMD\<close> is a modifier token of \<^verbatim>\<open>CMD+f13\<close> and
  is not in the set \<open>{cmd, ctrl, opt, shift}\<close>, yet the string is accepted.
\<close>

theorem validateKeybind_uppercase_modifier:
  "''CMD'' \<in> set (butlast (js_split CHR ''+'' ''CMD+f13''))
   \<and> ''CMD'' \<notin> set [''cmd'', ''ctrl'', ''opt'', ''shift'']
   \<and> validateKeybind ''CMD+f13'' = None"
  by code_simp

lemma toLowerCase_prototype:
  "m \<in> set objectPrototypeNames \<Longrightarrow> toLowerCase m \<notin> set validModifiers"
proof -
  have "list_all (\<lambda>m. toLowerCase m \<notin> set validModifiers) objectPrototypeNames"
    by code_simp
  then show "m \<in> set objectPrototypeNames \<Longrightarrow> toLowerCase m \<notin> set validModifiers"
    by (simp add: list_all_iff)
qed

lemma map_of_modifierMap:
  "(map_of modifierMap m \<noteq> None) = (m \<in> set validModifiers)"
  by (simp add: modifierMap_def validModifiers_def)

lemma modifierText_other:
  "map_of modifierMap m = None \<Longrightarrow> m \<notin> set objectPrototypeNames \<Longrightarrow>
   modifierText m = m @ '' down''"
  by (simp add: modifierText_def lookup_def)

lemma modifierText_own:
  "map_of modifierMap m = Some c \<Longrightarrow> modifierText m = c @ '' down''"
proof -
  have "list_all (\<lambda>e. snd e \<noteq> []) modifierMap"
    by code_simp
  moreover assume a: "map_of modifierMap m = Some c"
  ultimately have "c \<noteq> []"
    using map_of_SomeD [of modifierMap m c] by (fastforce simp: list_all_iff)
  with a show ?thesis
    by (simp add: modifierText_def lookup_def)
qed

text \<open>
  C7. The lookup in \<open>modifierMap\<close> is an exact match: the table has an entry for a token
  exactly when the token is one of the four lower-case abbreviations, which are
  translated to \<open>command\<close>, \<open>control\<close>, \<open>option\<close>, \<open>shift\<close>; a token that is one of
  them only after lower-casing is passed on as typed. \<open>validateKeybind\<close> accepts
  \<^verbatim>\<open>CMD+f13\<close>, and \<open>parseHotkey\<close> gives it the modifier \<^verbatim>\<open>CMD down\<close>, which is none
  of the four canonical ones.
\<close>

theorem parseHotkey_case_sensitive:
  "(map_of modifierMap m \<noteq> None) = (m \<in> set [''cmd'', ''ctrl'', ''opt'', ''shift''])
   \<and> modifierText ''cmd'' = ''command down''
   \<and> modifierText ''ctrl'' = ''control down''
   \<and> modifierText ''opt'' = ''option down''
   \<and> modifierText ''shift'' = ''shift down''
   \<and> (toLowerCase m \<in> set validModifiers \<and> m \<notin> set validModifiers
        \<longrightarrow> modifierText m = m @ '' down'')
   \<and> modifiers (parseHotkey s) = map modifierText (butlast (js_split CHR ''+'' s))
   \<and> validateKeybind ''CMD+f13'' = None
   \<and> modifiers (parseHotkey ''CMD+f13'') = [''CMD down'']
   \<and> ''CMD down'' \<notin> set [''command down'', ''control down'', ''option down'', ''shift down'']"
proof (intro conjI impI)
  show "(map_of modifierMap m \<noteq> None) = (m \<in> set [''cmd'', ''ctrl'', ''opt'', ''shift''])"
    by (simp add: modifierMap_def)
next
  assume a: "toLowerCase m \<in> set validModifiers \<and> m \<notin> set validModifiers"
  then have "m \<notin> set objectPrototypeNames"
    using toLowerCase_prototype [of m] by blast
  moreover from a have "map_of modifierMap m = None"
    using map_of_modifierMap [of m] by simp
  ultimately show "modifierText m = m @ '' down''"
    by (simp add: modifierText_other)
next
  show "modifiers (parseHotkey s) = map modifierText (butlast (js_split CHR ''+'' s))"
    by (simp add: parseHotkey_def Let_def)
qed (code_simp+)

theorem parseHotkey_case_sensitive_witness:
  "toLowerCase ''Shift'' \<in> set validModifiers
   \<and> ''Shift'' \<notin> set validModifiers
   \<and> modifierText ''Shift'' = ''Shift down''"
proof -
  have h: "toLowerCase ''Shift'' \<in> set validModifiers \<and> ''Shift'' \<notin> set validModifiers"
    by code_simp
  then have "modifierText ''Shift'' = ''Shift'' @ '' down''"
    using parseHotkey_case_sensitive [of "''Shift''"] by blast
  with h show ?thesis by simp
qed

text \<open>
  C6. \<open>parseHotkey\<close> splits on \<^verbatim>\<open>+\<close>, the last token is the key and the tokens before
  it are the modifiers, and \<^verbatim>\<open>cmd+shift+f14\<close> gives the key \<open>f14\<close> with the modifiers
  \<^verbatim>\<open>command down\<close> and \<^verbatim>\<open>shift down\<close>. But not every token outside the table passes
  through unchanged: a token that names a member of \<^verbatim>\<open>Object.prototype\<close> is found by
  the lookup, and the modifier becomes the text of that member. For
  \<^verbatim>\<open>constructor+a\<close> the modifier is not \<^verbatim>\<open>constructor down\<close>.
\<close>

theorem parseHotkey_inherited_modifier:
  "parseHotkey ''constructor+a''
     = \<lparr>key = ''a'', modifiers = [''function Object() { [native code] } down'']\<rparr>
   \<and> modifiers (parseHotkey ''constructor+a'') \<noteq> [''constructor down'']
   \<and> parseHotkey ''cmd+shift+f14''
     = \<lparr>key = ''f14'', modifiers = [''command down'', ''shift down'']\<rparr>"
  by code_simp

text \<open>
  What \<open>parseHotkey\<close> does for every string: the tokens are the pieces between the
  \<^verbatim>\<open>+\<close> signs (joined again by \<^verbatim>\<open>+\<close> they give the string, and none holds a
  \<^verbatim>\<open>+\<close>), the key is the last token, and when no token before it names a member of
  \<^verbatim>\<open>Object.prototype\<close>, each of them is translated by the table or, without an entry
  there, passed through unchanged, with \<^verbatim>\<open> down\<close> appended.
\<close>

theorem parseHotkey_tokens:
  "join ''+'' (js_split CHR ''+'' s) = s
   \<and> list_all (\<lambda>t. CHR ''+'' \<notin> set t) (js_split CHR ''+'' s)
   \<and> key (parseHotkey s) = last (js_split CHR ''+'' s)
   \<and> (list_all (\<lambda>m. m \<notin> set objectPrototypeNames) (butlast (js_split CHR ''+'' s))
        \<longrightarrow> modifiers (parseHotkey s)
            = map (\<lambda>m. (case map_of modifierMap m of Some c \<Rightarrow> c | None \<Rightarrow> m) @ '' down'')
                (butlast (js_split CHR ''+'' s)))"
proof (intro conjI impI)
  show "join ''+'' (js_split CHR ''+'' s) = s"
    by (rule join_js_split)
next
  show "list_all (\<lambda>t. CHR ''+'' \<notin> set t) (js_split CHR ''+'' s)"
    by (rule js_split_no_sep)
next
  show "key (parseHotkey s) = last (js_split CHR ''+'' s)"
    by (simp add: parseHotkey_def Let_def)
next
  assume a: "list_all (\<lambda>m. m \<notin> set objectPrototypeNames) (butlast (js_split CHR ''+'' s))"
  have "modifierText m = (case map_of modifierMap m of Some c \<Rightarrow> c | None \<Rightarrow> m) @ '' down''"
    if "m \<notin> set objectPrototypeNames" for m
    using that by (cases "map_of modifierMap m") (simp_all add: modifierText_other modifierText_own)
  with a show "modifiers (parseHotkey s)
            = map (\<lambda>m. (case map_of modifierMap m of Some c \<Rightarrow> c | None \<Rightarrow> m) @ '' down'')
                (butlast (js_split CHR ''+'' s))"
    by (simp add: parseHotkey_def Let_def list_all_iff)
qed

theorem parseHotkey_tokens_witness:
  "list_all (\<lambda>m. m \<notin> set objectPrototypeNames) (butlast (js_split CHR ''+'' ''cmd+fn+a''))
   \<and> modifiers (parseHotkey ''cmd+fn+a'') = [''command down'', ''fn down'']"
proof -
  have h: "list_all (\<lambda>m. m \<notin> set objectPrototypeNames) (butlast (js_split CHR ''+'' ''cmd+fn+a''))"
    by code_simp
  have e: "map (\<lambda>m. (case map_of modifierMap m of Some c \<Rightarrow> c | None \<Rightarrow> m) @ '' down'')
             (butlast (js_split CHR ''+'' ''cmd+fn+a'')) = [''command down'', ''fn down'']"
    by code_simp
  from h have "modifiers (parseHotkey ''cmd+fn+a'')
      = map (\<lambda>m. (case map_of modifierMap m of Some c \<Rightarrow> c | None \<Rightarrow> m) @ '' down'')
          (butlast (js_split CHR ''+'' ''cmd+fn+a''))"
    using parseHotkey_tokens [of "''cmd+fn+a''"] by blast
  with h e show ?thesis by simp
qed

section \<open>Keybinds: resolving the key\<close>

lemma keycodeMap_nonzero: "map_of keycodeMap k = Some n \<Longrightarrow> n \<noteq> 0"
  by (auto simp: keycodeMap_def split: if_splits)

lemma keycodeMap_key_length: "map_of keycodeMap k = Some n \<Longrightarrow> length k = 3"
proof -
  have "list_all (\<lambda>e. length (fst e) = 3) keycodeMap"
    by code_simp
  then show "map_of keycodeMap k = Some n \<Longrightarrow> length k = 3"
    using map_of_SomeD [of keycodeMap k n] by (fastforce simp: list_all_iff)
qed

lemma supportedKeys_in_map: "k \<in> set supportedKeys \<Longrightarrow> \<exists>n. map_of keycodeMap k = Some n"
proof -
  have "list_all (\<lambda>k. map_of keycodeMap k \<noteq> None) supportedKeys"
    by code_simp
  then show "k \<in> set supportedKeys \<Longrightarrow> \<exists>n. map_of keycodeMap k = Some n"
    by (auto simp: list_all_iff)
qed

lemma objectPrototypeNames_length: "k \<in> set objectPrototypeNames \<Longrightarrow> 7 \<le> length k"
proof -
  have "list_all (\<lambda>k. 7 \<le> length k) objectPrototypeNames"
    by code_simp
  then show "k \<in> set objectPrototypeNames \<Longrightarrow> 7 \<le> length k"
    by (simp add: list_all_iff)
qed

lemma lookup_single_char: "length k = 1 \<Longrightarrow> lookup keycodeMap k = Undefined"
proof -
  assume len: "length k = 1"
  have "map_of keycodeMap k = None"
  proof (cases "map_of keycodeMap k")
    case None
    then show ?thesis .
  next
    case (Some n)
    then have "length k = 3" by (rule keycodeMap_key_length)
    with len show ?thesis by simp
  qed
  moreover have "k \<notin> set objectPrototypeNames"
    using objectPrototypeNames_length [of k] len by auto
  ultimately show "lookup keycodeMap k = Undefined"
    by (simp add: lookup_def)
qed

lemma startsWith_f_not_inherited: "startsWith k ''f'' \<Longrightarrow> k \<notin> set objectPrototypeNames"
  by (auto simp: startsWith_def objectPrototypeNames_def)

lemma unsupported_iff:
  "startsWith (toLowerCase k) ''f'' \<Longrightarrow>
   unsupportedFunctionKey (lookup keycodeMap (toLowerCase k)) k
     = (map_of keycodeMap (toLowerCase k) = None)"
  using keycodeMap_nonzero [of "toLowerCase k"] startsWith_f_not_inherited [of "toLowerCase k"]
  by (auto simp: unsupportedFunctionKey_def lookup_def split: option.splits)

lemma validateKeybind_None_key:
  assumes "validateKeybind s = None"
  shows "toLowerCase (key (parseHotkey s)) \<in> set supportedKeys \<or> length (key (parseHotkey s)) = 1"
  using assms
  by (auto simp: validateKeybind_def parseHotkey_def Let_def length_toLowerCase
           split: if_splits option.splits)

text \<open>
  C1. A string that \<open>validateKeybind\<close> accepts is parsed (\<open>parseHotkey\<close> is total), but
  its key need not resolve: \<^verbatim>\<open>cmd+f\<close> is accepted, its key \<open>f\<close> is a single
  character with no entry in the key-code table, and because it starts with \<open>f\<close> both
  actions take it for an unsupported function key. \<open>simulateKeybind\<close> throws and
  \<open>pingDevice\<close> shows the failure toast; neither sends a key event.
\<close>

theorem validated_f_key_rejected:
  "validateKeybind ''cmd+f'' = None
   \<and> simulateKeybind b ''cmd+f'' =
       ([CloseMainWindow],
        Some (Error ''Unsupported function key: f. Only f13-f20 are supported.''))
   \<and> pingDevice rt b (Some ''cmd+f'') sd dn =
       [ShowToast Failure ''Unsupported function key''
          (Some ''f is not supported. Only f13-f20 are supported.'')]"
proof -
  have p: "parseHotkey ''cmd+f'' = \<lparr>key = ''f'', modifiers = [''command down'']\<rparr>"
    by code_simp
  have u: "unsupportedFunctionKey (lookup keycodeMap (toLowerCase ''f'')) ''f''"
    by code_simp
  have v: "validateKeybind ''cmd+f'' = None"
    by code_simp
  from p u v show ?thesis
    by (simp add: simulateKeybind_def pingDevice_def Let_def)
qed

text \<open>
  Every other accepted string does resolve: when \<open>validateKeybind\<close> accepts a string
  whose key, lower-cased, is not the single letter \<open>f\<close>, the key is not taken for an
  unsupported function key, and the key command is either \<^verbatim>\<open>key code\<close> with the
  table's code for the key, or \<^verbatim>\<open>keystroke\<close> with the key, a single character.
\<close>

theorem validated_key_resolves:
  assumes "validateKeybind s = None" and "toLowerCase (key (parseHotkey s)) \<noteq> ''f''"
  shows "\<not> unsupportedFunctionKey (lookup keycodeMap (toLowerCase (key (parseHotkey s))))
             (key (parseHotkey s))
    \<and> ((\<exists>n. map_of keycodeMap (toLowerCase (key (parseHotkey s))) = Some n
           \<and> keyCommand (lookup keycodeMap (toLowerCase (key (parseHotkey s))))
                (key (parseHotkey s)) (modifiers (parseHotkey s))
               = ''key code '' @ showNat n @ modifierString (modifiers (parseHotkey s)))
         \<or> (length (key (parseHotkey s)) = 1
           \<and> keyCommand (lookup keycodeMap (toLowerCase (key (parseHotkey s))))
                (key (parseHotkey s)) (modifiers (parseHotkey s))
               = ''keystroke '' @ [dquote] @ key (parseHotkey s) @ [dquote]
                 @ modifierString (modifiers (parseHotkey s))))"
proof (cases "toLowerCase (key (parseHotkey s)) \<in> set supportedKeys")
  case True
  then obtain n where n: "map_of keycodeMap (toLowerCase (key (parseHotkey s))) = Some n"
    using supportedKeys_in_map by blast
  then have "n \<noteq> 0" by (rule keycodeMap_nonzero)
  with n show ?thesis
    by (simp add: unsupportedFunctionKey_def lookup_def keyCommand_def)
next
  case False
  with assms(1) have len: "length (key (parseHotkey s)) = 1"
    using validateKeybind_None_key by blast
  then have len': "length (toLowerCase (key (parseHotkey s))) = 1"
    by (simp add: length_toLowerCase)
  then have u: "lookup keycodeMap (toLowerCase (key (parseHotkey s))) = Undefined"
    by (rule lookup_single_char)
  have "\<not> startsWith (toLowerCase (key (parseHotkey s))) ''f''"
  proof
    assume "startsWith (toLowerCase (key (parseHotkey s))) ''f''"
    with len' have "toLowerCase (key (parseHotkey s)) = ''f''"
      by (cases "toLowerCase (key (parseHotkey s))") (auto simp: startsWith_def)
    with assms(2) show False by simp
  qed
  with u len show ?thesis
    by (simp add: unsupportedFunctionKey_def keyCommand_def)
qed

theorem validated_key_resolves_witness:
  "validateKeybind ''cmd+shift+F14'' = None
   \<and> toLowerCase (key (parseHotkey ''cmd+shift+F14'')) \<noteq> ''f''
   \<and> \<not> unsupportedFunctionKey (lookup keycodeMap (toLowerCase (key (parseHotkey ''cmd+shift+F14''))))
         (key (parseHotkey ''cmd+shift+F14''))
   \<and> keyCommand (lookup keycodeMap (toLowerCase (key (parseHotkey ''cmd+shift+F14''))))
        (key (parseHotkey ''cmd+shift+F14'')) (modifiers (parseHotkey ''cmd+shift+F14''))
      = ''key code 107 using {command down, shift down}''"
proof -
  have h1: "validateKeybind ''cmd+shift+F14'' = None"
    by code_simp
  have h2: "toLowerCase (key (parseHotkey ''cmd+shift+F14'')) \<noteq> ''f''"
    by code_simp
  have c: "keyCommand (lookup keycodeMap (toLowerCase (key (parseHotkey ''cmd+shift+F14''))))
        (key (parseHotkey ''cmd+shift+F14'')) (modifiers (parseHotkey ''cmd+shift+F14''))
      = ''key code 107 using {command down, shift down}''"
    by code_simp
  from validated_key_resolves [OF h1 h2] h1 h2 c show ?thesis
    by blast
qed

section \<open>The ping action\<close>

lemma scriptsSent_pingDevice:
  "scriptsSent (pingDevice rt b sk sd dn) =
     (let p = parseHotkey (orElse sk ''cmd+f13'');
          keycode = lookup keycodeMap (toLowerCase (key p))
      in if unsupportedFunctionKey keycode (key p) then []
         else [pingScript (keyCommand keycode (key p) (modifiers p))
                 (numberToString rt (parseFloat rt (orElse sd ''1'')))
                 (sanitizeForAppleScript dn)])"
  by (simp add: pingDevice_def Let_def split: option.splits)

lemma pingScript_lines:
  "pingScript cmd delayText deviceText =
     join [newline]
       [[],
        ''    tell application '' @ [dquote] @ ''System Events'' @ [dquote],
        ''      '' @ cmd,
        ''    end tell'',
        ''    delay '' @ delayText,
        ''    tell application '' @ [dquote] @ ''System Events'' @ [dquote],
        ''      keystroke '' @ [dquote] @ ''ping my '' @ deviceText @ [dquote],
        ''      delay 0.3'',
        ''      key code 36'',
        ''    end tell'',
        ''  '']"
  by (simp add: pingScript_def)

lemma keyCommand_shape:
  assumes "\<not> unsupportedFunctionKey (lookup keycodeMap k') k"
  shows "keyCommand (lookup keycodeMap k') k mods =
     (case lookup keycodeMap k' of
        Own n \<Rightarrow> ''key code '' @ showNat n
      | Inherited q \<Rightarrow> ''key code '' @ inheritedText q
      | Undefined \<Rightarrow> ''keystroke '' @ [dquote] @ k @ [dquote])
     @ (if mods = [] then [] else '' using {'' @ join '', '' mods @ ''}'')"
proof (cases "lookup keycodeMap k'")
  case (Own n)
  then have "map_of keycodeMap k' = Some n"
    by (simp add: lookup_def split: option.splits if_splits)
  then have "n \<noteq> 0" by (rule keycodeMap_nonzero)
  with Own show ?thesis
    by (simp add: keyCommand_def modifierString_def)
next
  case (Inherited q)
  then show ?thesis
    by (simp add: keyCommand_def modifierString_def)
next
  case Undefined
  then show ?thesis
    by (simp add: keyCommand_def modifierString_def)
qed

lemma modifiers_down: "list_all (suffix '' down'') (modifiers (parseHotkey s))"
  by (simp add: parseHotkey_def Let_def list_all_iff modifierText_def suffix_def)

text \<open>
  C3. Whenever \<open>pingDevice\<close> does not stop at an unsupported function key, it gives the
  bridge exactly one script, and the script is these lines: an empty first line, the
  \<^verbatim>\<open>tell\<close> block with the key command \<open>K\<close>, \<^verbatim>\<open>delay\<close> with the parsed delay as the
  runtime prints it, the \<^verbatim>\<open>tell\<close> block that types \<^verbatim>\<open>ping my\<close> and the sanitized
  device name, waits \<^verbatim>\<open>0.3\<close> and sends key code 36, and two spaces after the last line
  break. \<open>K\<close> is \<^verbatim>\<open>key code\<close> and the code, or \<^verbatim>\<open>keystroke\<close> and the quoted key, and
  then, when there are modifiers, \<^verbatim>\<open>using {...}\<close> around the modifiers, separated by
  comma and space, each ending in \<^verbatim>\<open>down\<close>.
\<close>

theorem pingDevice_script_shape:
  fixes rt :: runtime and b :: bridge and sk sd :: "string option" and dn :: string
  defines "p \<equiv> parseHotkey (orElse sk ''cmd+f13'')"
  defines "keycode \<equiv> lookup keycodeMap (toLowerCase (key p))"
  defines "K \<equiv> keyCommand keycode (key p) (modifiers p)"
  defines "d \<equiv> numberToString rt (parseFloat rt (orElse sd ''1''))"
  defines "D \<equiv> sanitizeForAppleScript dn"
  assumes resolves: "\<not> unsupportedFunctionKey keycode (key p)"
  shows "scriptsSent (pingDevice rt b sk sd dn) =
           [join [newline]
              [[],
               ''    tell application '' @ [dquote] @ ''System Events'' @ [dquote],
               ''      '' @ K,
               ''    end tell'',
               ''    delay '' @ d,
               ''    tell application '' @ [dquote] @ ''System Events'' @ [dquote],
               ''      keystroke '' @ [dquote] @ ''ping my '' @ D @ [dquote],
               ''      delay 0.3'',
               ''      key code 36'',
               ''    end tell'',
               ''  '']]
         \<and> K = (case keycode of
                  Own n \<Rightarrow> ''key code '' @ showNat n
                | Inherited q \<Rightarrow> ''key code '' @ inheritedText q
                | Undefined \<Rightarrow> ''keystroke '' @ [dquote] @ key p @ [dquote])
               @ (if modifiers p = [] then []
                  else '' using {'' @ join '', '' (modifiers p) @ ''}'')
         \<and> list_all (suffix '' down'') (modifiers p)"
proof (intro conjI)
  from resolves have "scriptsSent (pingDevice rt b sk sd dn) = [pingScript K d D]"
    unfolding p_def keycode_def K_def d_def D_def
    by (simp add: scriptsSent_pingDevice Let_def)
  then show "scriptsSent (pingDevice rt b sk sd dn) =
           [join [newline]
              [[],
               ''    tell application '' @ [dquote] @ ''System Events'' @ [dquote],
               ''      '' @ K,
               ''    end tell'',
               ''    delay '' @ d,
               ''    tell application '' @ [dquote] @ ''System Events'' @ [dquote],
               ''      keystroke '' @ [dquote] @ ''ping my '' @ D @ [dquote],
               ''      delay 0.3'',
               ''      key code 36'',
               ''    end tell'',
               ''  '']]"
    by (simp only: pingScript_lines)
next
  from resolves show "K = (case keycode of
                  Own n \<Rightarrow> ''key code '' @ showNat n
                | Inherited q \<Rightarrow> ''key code '' @ inheritedText q
                | Undefined \<Rightarrow> ''keystroke '' @ [dquote] @ key p @ [dquote])
               @ (if modifiers p = [] then []
                  else '' using {'' @ join '', '' (modifiers p) @ ''}'')"
    unfolding K_def keycode_def by (rule keyCommand_shape)
next
  show "list_all (suffix '' down'') (modifiers p)"
    unfolding p_def by (rule modifiers_down)
qed

theorem pingDevice_script_shape_witness:
  "\<not> unsupportedFunctionKey
       (lookup keycodeMap (toLowerCase (key (parseHotkey (orElse None ''cmd+f13'')))))
       (key (parseHotkey (orElse None ''cmd+f13'')))
   \<and> scriptsSent (pingDevice sampleRuntime sampleBridge None (Some ''2'') ''Bob's iPhone'') =
       [join [newline]
          [[],
           ''    tell application '' @ [dquote] @ ''System Events'' @ [dquote],
           ''      key code 105 using {command down}'',
           ''    end tell'',
           ''    delay 2'',
           ''    tell application '' @ [dquote] @ ''System Events'' @ [dquote],
           ''      keystroke '' @ [dquote] @ ''ping my Bob's iPhone'' @ [dquote],
           ''      delay 0.3'',
           ''      key code 36'',
           ''    end tell'',
           ''  '']]"
proof -
  have h: "\<not> unsupportedFunctionKey
       (lookup keycodeMap (toLowerCase (key (parseHotkey (orElse None ''cmd+f13'')))))
       (key (parseHotkey (orElse None ''cmd+f13'')))"
    by code_simp
  have K: "keyCommand (lookup keycodeMap (toLowerCase (key (parseHotkey (orElse None ''cmd+f13'')))))
             (key (parseHotkey (orElse None ''cmd+f13'')))
             (modifiers (parseHotkey (orElse None ''cmd+f13'')))
           = ''key code 105 using {command down}''"
    by code_simp
  have d: "numberToString sampleRuntime (parseFloat sampleRuntime (orElse (Some ''2'') ''1'')) = ''2''"
    by code_simp
  have D: "sanitizeForAppleScript ''Bob's iPhone'' = ''Bob's iPhone''"
    by code_simp
  from pingDevice_script_shape
    [where sk = None and rt = sampleRuntime and sd = "Some ''2''" and dn = "''Bob's iPhone''"
       and b = sampleBridge, OF h]
  have "scriptsSent (pingDevice sampleRuntime sampleBridge None (Some ''2'') ''Bob's iPhone'') =
       [join [newline]
          [[],
           ''    tell application '' @ [dquote] @ ''System Events'' @ [dquote],
           ''      '' @ keyCommand (lookup keycodeMap (toLowerCase (key (parseHotkey (orElse None ''cmd+f13'')))))
             (key (parseHotkey (orElse None ''cmd+f13'')))
             (modifiers (parseHotkey (orElse None ''cmd+f13''))),
           ''    end tell'',
           ''    delay '' @ numberToString sampleRuntime (parseFloat sampleRuntime (orElse (Some ''2'') ''1'')),
           ''    tell application '' @ [dquote] @ ''System Events'' @ [dquote],
           ''      keystroke '' @ [dquote] @ ''ping my '' @ sanitizeForAppleScript ''Bob's iPhone'' @ [dquote],
           ''      delay 0.3'',
           ''      key code 36'',
           ''    end tell'',
           ''  '']]"
    by blast
  then show ?thesis
    unfolding K d D using h by simp
qed

text \<open>
  C5. When the parsed key, lower-cased, starts with \<open>f\<close> and has no entry in the
  key-code table, \<open>pingDevice\<close> shows only the failure toast \<^verbatim>\<open>Unsupported function key\<close>
  with the key in its message, and \<open>simulateKeybind\<close> only closes the window and throws
  the error that names the key: neither calls the bridge. When the bridge call of
  \<open>pingDevice\<close> throws, the action ends with the failure toast \<^verbatim>\<open>Failed to ping device\<close>,
  whose message is the error's own message for an \<^verbatim>\<open>Error\<close> and
  \<^verbatim>\<open>Unknown error occurred\<close> for any other thrown value.
\<close>

theorem unsupported_key_and_bridge_failure:
  "(startsWith (toLowerCase (key (parseHotkey (orElse sk ''cmd+f13'')))) ''f''
      \<and> map_of keycodeMap (toLowerCase (key (parseHotkey (orElse sk ''cmd+f13'')))) = None
    \<longrightarrow> pingDevice rt b sk sd dn =
          [ShowToast Failure ''Unsupported function key''
             (Some (key (parseHotkey (orElse sk ''cmd+f13''))
                    @ '' is not supported. Only f13-f20 are supported.''))])
   \<and> (startsWith (toLowerCase (key (parseHotkey s))) ''f''
      \<and> map_of keycodeMap (toLowerCase (key (parseHotkey s))) = None
    \<longrightarrow> simulateKeybind b s =
          ([CloseMainWindow],
           Some (Error (''Unsupported function key: '' @ key (parseHotkey s)
                        @ ''. Only f13-f20 are supported.''))))
   \<and> (scriptsSent (pingDevice rt b sk sd dn) = [script] \<and> b script = Some (Error m)
    \<longrightarrow> pingDevice rt b sk sd dn =
          [ShowToast Animated ''Pinging device...'' (Some dn), RunAppleScript script,
           ShowToast Failure ''Failed to ping device'' (Some m)])
   \<and> (scriptsSent (pingDevice rt b sk sd dn) = [script] \<and> b script = Some NonError
    \<longrightarrow> pingDevice rt b sk sd dn =
          [ShowToast Animated ''Pinging device...'' (Some dn), RunAppleScript script,
           ShowToast Failure ''Failed to ping device'' (Some ''Unknown error occurred'')])"
proof (intro conjI impI)
  assume "startsWith (toLowerCase (key (parseHotkey (orElse sk ''cmd+f13'')))) ''f''
      \<and> map_of keycodeMap (toLowerCase (key (parseHotkey (orElse sk ''cmd+f13'')))) = None"
  then have "unsupportedFunctionKey
      (lookup keycodeMap (toLowerCase (key (parseHotkey (orElse sk ''cmd+f13'')))))
      (key (parseHotkey (orElse sk ''cmd+f13'')))"
    by (simp add: unsupported_iff)
  then show "pingDevice rt b sk sd dn =
          [ShowToast Failure ''Unsupported function key''
             (Some (key (parseHotkey (orElse sk ''cmd+f13''))
                    @ '' is not supported. Only f13-f20 are supported.''))]"
    by (simp add: pingDevice_def Let_def)
next
  assume "startsWith (toLowerCase (key (parseHotkey s))) ''f''
      \<and> map_of keycodeMap (toLowerCase (key (parseHotkey s))) = None"
  then have "unsupportedFunctionKey (lookup keycodeMap (toLowerCase (key (parseHotkey s))))
      (key (parseHotkey s))"
    by (simp add: unsupported_iff)
  then show "simulateKeybind b s =
          ([CloseMainWindow],
           Some (Error (''Unsupported function key: '' @ key (parseHotkey s)
                        @ ''. Only f13-f20 are supported.'')))"
    by (simp add: simulateKeybind_def Let_def)
next
  assume a: "scriptsSent (pingDevice rt b sk sd dn) = [script] \<and> b script = Some (Error m)"
  show "pingDevice rt b sk sd dn =
          [ShowToast Animated ''Pinging device...'' (Some dn), RunAppleScript script,
           ShowToast Failure ''Failed to ping device'' (Some m)]"
  proof -
    from a have "\<not> unsupportedFunctionKey
        (lookup keycodeMap (toLowerCase (key (parseHotkey (orElse sk ''cmd+f13'')))))
        (key (parseHotkey (orElse sk ''cmd+f13'')))
      \<and> script = pingScript
          (keyCommand (lookup keycodeMap (toLowerCase (key (parseHotkey (orElse sk ''cmd+f13'')))))
             (key (parseHotkey (orElse sk ''cmd+f13'')))
             (modifiers (parseHotkey (orElse sk ''cmd+f13''))))
          (numberToString rt (parseFloat rt (orElse sd ''1'')))
          (sanitizeForAppleScript dn)"
      by (auto simp: scriptsSent_pingDevice Let_def split: if_splits)
    with a show ?thesis
      by (simp add: pingDevice_def Let_def)
  qed
next
  assume a: "scriptsSent (pingDevice rt b sk sd dn) = [script] \<and> b script = Some NonError"
  show "pingDevice rt b sk sd dn =
          [ShowToast Animated ''Pinging device...'' (Some dn), RunAppleScript script,
           ShowToast Failure ''Failed to ping device'' (Some ''Unknown error occurred'')]"
  proof -
    from a have "\<not> unsupportedFunctionKey
        (lookup keycodeMap (toLowerCase (key (parseHotkey (orElse sk ''cmd+f13'')))))
        (key (parseHotkey (orElse sk ''cmd+f13'')))
      \<and> script = pingScript
          (keyCommand (lookup keycodeMap (toLowerCase (key (parseHotkey (orElse sk ''cmd+f13'')))))
             (key (parseHotkey (orElse sk ''cmd+f13'')))
             (modifiers (parseHotkey (orElse sk ''cmd+f13''))))
          (numberToString rt (parseFloat rt (orElse sd ''1'')))
          (sanitizeForAppleScript dn)"
      by (auto simp: scriptsSent_pingDevice Let_def split: if_splits)
    with a show ?thesis
      by (simp add: pingDevice_def Let_def)
  qed
qed

theorem unsupported_key_and_bridge_failure_witness:
  "startsWith (toLowerCase (key (parseHotkey (orElse (Some ''cmd+F21'') ''cmd+f13'')))) ''f''
   \<and> map_of keycodeMap (toLowerCase (key (parseHotkey (orElse (Some ''cmd+F21'') ''cmd+f13'')))) = None
   \<and> pingDevice sampleRuntime sampleBridge (Some ''cmd+F21'') None ''iPhone'' =
        [ShowToast Failure ''Unsupported function key''
           (Some ''F21 is not supported. Only f13-f20 are supported.'')]
   \<and> startsWith (toLowerCase (key (parseHotkey ''cmd+F21''))) ''f''
   \<and> map_of keycodeMap (toLowerCase (key (parseHotkey ''cmd+F21''))) = None
   \<and> simulateKeybind sampleBridge ''cmd+F21'' =
        ([CloseMainWindow],
         Some (Error ''Unsupported function key: F21. Only f13-f20 are supported.''))
   \<and> scriptsSent (pingDevice sampleRuntime (\<lambda>s. Some (Error ''Not authorized'')) None None ''iPhone'')
        = [pingScript ''key code 105 using {command down}'' ''1'' ''iPhone'']
   \<and> pingDevice sampleRuntime (\<lambda>s. Some (Error ''Not authorized'')) None None ''iPhone'' =
        [ShowToast Animated ''Pinging device...'' (Some ''iPhone''),
         RunAppleScript (pingScript ''key code 105 using {command down}'' ''1'' ''iPhone''),
         ShowToast Failure ''Failed to ping device'' (Some ''Not authorized'')]
   \<and> scriptsSent (pingDevice sampleRuntime (\<lambda>s. Some NonError) None None ''iPhone'')
        = [pingScript ''key code 105 using {command down}'' ''1'' ''iPhone'']
   \<and> pingDevice sampleRuntime (\<lambda>s. Some NonError) None None ''iPhone'' =
        [ShowToast Animated ''Pinging device...'' (Some ''iPhone''),
         RunAppleScript (pingScript ''key code 105 using {command down}'' ''1'' ''iPhone''),
         ShowToast Failure ''Failed to ping device'' (Some ''Unknown error occurred'')]"
proof -
  have h1: "startsWith (toLowerCase (key (parseHotkey (orElse (Some ''cmd+F21'') ''cmd+f13'')))) ''f''
   \<and> map_of keycodeMap (toLowerCase (key (parseHotkey (orElse (Some ''cmd+F21'') ''cmd+f13'')))) = None"
    by code_simp
  have k1: "key (parseHotkey (orElse (Some ''cmd+F21'') ''cmd+f13'')) = ''F21''"
    by code_simp
  have h2: "startsWith (toLowerCase (key (parseHotkey ''cmd+F21''))) ''f''
   \<and> map_of keycodeMap (toLowerCase (key (parseHotkey ''cmd+F21''))) = None"
    by code_simp
  have k2: "key (parseHotkey ''cmd+F21'') = ''F21''"
    by code_simp
  have h3: "scriptsSent (pingDevice sampleRuntime (\<lambda>s. Some (Error ''Not authorized'')) None None ''iPhone'')
        = [pingScript ''key code 105 using {command down}'' ''1'' ''iPhone'']"
    by code_simp
  have h4: "scriptsSent (pingDevice sampleRuntime (\<lambda>s. Some NonError) None None ''iPhone'')
        = [pingScript ''key code 105 using {command down}'' ''1'' ''iPhone'']"
    by code_simp
  have "pingDevice sampleRuntime sampleBridge (Some ''cmd+F21'') None ''iPhone'' =
        [ShowToast Failure ''Unsupported function key''
           (Some (key (parseHotkey (orElse (Some ''cmd+F21'') ''cmd+f13''))
                  @ '' is not supported. Only f13-f20 are supported.''))]"
    using unsupported_key_and_bridge_failure
      [where sk = "Some ''cmd+F21''" and rt = sampleRuntime and b = sampleBridge
         and sd = None and dn = "''iPhone''"] h1
    by blast
  then have c1: "pingDevice sampleRuntime sampleBridge (Some ''cmd+F21'') None ''iPhone'' =
        [ShowToast Failure ''Unsupported function key''
           (Some ''F21 is not supported. Only f13-f20 are supported.'')]"
    unfolding k1 by simp
  have "simulateKeybind sampleBridge ''cmd+F21'' =
        ([CloseMainWindow],
         Some (Error (''Unsupported function key: '' @ key (parseHotkey ''cmd+F21'')
                      @ ''. Only f13-f20 are supported.'')))"
    using unsupported_key_and_bridge_failure [where s = "''cmd+F21''" and b = sampleBridge] h2
    by blast
  then have c2: "simulateKeybind sampleBridge ''cmd+F21'' =
        ([CloseMainWindow],
         Some (Error ''Unsupported function key: F21. Only f13-f20 are supported.''))"
    unfolding k2 by simp
  have c3: "pingDevice sampleRuntime (\<lambda>s. Some (Error ''Not authorized'')) None None ''iPhone'' =
        [ShowToast Animated ''Pinging device...'' (Some ''iPhone''),
         RunAppleScript (pingScript ''key code 105 using {command down}'' ''1'' ''iPhone''),
         ShowToast Failure ''Failed to ping device'' (Some ''Not authorized'')]"
    using unsupported_key_and_bridge_failure
      [where sk = None and rt = sampleRuntime and b = "\<lambda>s. Some (Error ''Not authorized'')"
         and sd = None and dn = "''iPhone''" and m = "''Not authorized''"
         and script = "pingScript ''key code 105 using {command down}'' ''1'' ''iPhone''"] h3
    by blast
  have c4: "pingDevice sampleRuntime (\<lambda>s. Some NonError) None None ''iPhone'' =
        [ShowToast Animated ''Pinging device...'' (Some ''iPhone''),
         RunAppleScript (pingScript ''key code 105 using {command down}'' ''1'' ''iPhone''),
         ShowToast Failure ''Failed to ping device'' (Some ''Unknown error occurred'')]"
    using unsupported_key_and_bridge_failure
      [where sk = None and rt = sampleRuntime and b = "\<lambda>s. Some NonError"
         and sd = None and dn = "''iPhone''"
         and script = "pingScript ''key code 105 using {command down}'' ''1'' ''iPhone''"] h4
    by blast
  from h1 h2 h3 h4 c1 c2 c3 c4 show ?thesis by blast
qed

section \<open>Facts about the device list\<close>

lemma run_snoc: "run (acts @ [a]) = perform (run acts) a"
  by (simp add: run_def)

lemma inserted_append: "inserted (xs @ ys) = inserted xs @ inserted ys"
  by (induction xs rule: inserted.induct) simp_all

lemma ids_inserted: "map id' (inserted acts) = map showNat (clocks acts)"
  by (induction acts rule: inserted.induct) simp_all

lemma subseq_run_inserted: "subseq (run acts) (inserted acts)"
proof (induction acts rule: rev_induct)
  case Nil
  show ?case by (simp add: run_def)
next
  case (snoc a acts)
  show ?case
  proof (cases a)
    case (Add now n i)
    with snoc show ?thesis
      by (simp add: run_snoc inserted_append addDevice_def)
  next
    case (Remove i)
    have "subseq (filter (\<lambda>d. id' d \<noteq> i) (run acts)) (run acts)"
      by simp
    then have "subseq (filter (\<lambda>d. id' d \<noteq> i) (run acts)) (inserted acts)"
      using snoc by (rule subseq_order.trans)
    with Remove show ?thesis
      by (simp add: run_snoc inserted_append removeDevice_def)
  qed
qed

lemma subseq_distinct: "subseq xs ys \<Longrightarrow> distinct ys \<Longrightarrow> distinct xs"
proof (induction rule: list_emb.induct)
  case (list_emb_Nil ys)
  show ?case by simp
next
  case (list_emb_Cons xs ys y)
  then show ?case by simp
next
  case (list_emb_Cons2 x y xs ys)
  then have "x \<notin> set xs"
    using list_emb_set [of "(=)" xs ys] by auto
  with list_emb_Cons2 show ?case by simp
qed

lemma distinct_foldl_fresh:
  "distinct (map id' devices) \<Longrightarrow> freshAdds devices acts \<Longrightarrow>
   distinct (map id' (foldl perform devices acts))"
proof (induction acts arbitrary: devices)
  case Nil
  then show ?case by simp
next
  case (Cons a acts)
  show ?case
  proof (cases a)
    case (Add now n i)
    with Cons.prems have "distinct (map id' (addDevice now devices n i))"
      and "freshAdds (addDevice now devices n i) acts"
      by (simp_all add: addDevice_def)
    then have "distinct (map id' (foldl perform (addDevice now devices n i) acts))"
      by (rule Cons.IH)
    with Add show ?thesis by simp
  next
    case (Remove i)
    with Cons.prems have "distinct (map id' (removeDevice devices i))"
      and "freshAdds (removeDevice devices i) acts"
      by (simp_all add: removeDevice_def distinct_map_filter)
    then have "distinct (map id' (foldl perform (removeDevice devices i) acts))"
      by (rule Cons.IH)
    with Remove show ?thesis by simp
  qed
qed

text \<open>
  C4, as the code has it. After any sequence of adds and removes the list holds its
  devices in the order of their insertion: it is a subsequence of the devices inserted
  so far, in insertion order. The id of a new device is the clock's reading and nothing
  checks it against the ids in the list, so the ids are distinct under a condition on
  the clock: they are whenever each add reads a value that is not the id of a device in
  the list at that moment, and so in particular whenever the readings of the adds
  differ from each other.
\<close>

theorem run_ids_distinct:
  "subseq (run acts) (inserted acts)
   \<and> (freshAdds [] acts \<longrightarrow> distinct (map id' (run acts)))
   \<and> (distinct (clocks acts) \<longrightarrow> distinct (map id' (run acts)))"
proof (intro conjI impI)
  show "subseq (run acts) (inserted acts)"
    by (rule subseq_run_inserted)
next
  assume "freshAdds [] acts"
  then show "distinct (map id' (run acts))"
    unfolding run_def by (intro distinct_foldl_fresh) simp_all
next
  assume d: "distinct (clocks acts)"
  have "inj_on showNat (set (clocks acts))"
    by (rule inj_on_subset [OF inj_showNat]) simp
  with d have "distinct (map id' (inserted acts))"
    by (simp add: ids_inserted distinct_map)
  moreover have "subseq (map id' (run acts)) (map id' (inserted acts))"
    by (rule subseq_map) (rule subseq_run_inserted)
  ultimately show "distinct (map id' (run acts))"
    using subseq_distinct by blast
qed

theorem run_ids_distinct_witness:
  "freshAdds [] [Add 5 ''iPhone'' ''Iphone.png'', Remove ''5'', Add 5 ''AirPods'' ''Airpods.png'']
   \<and> distinct (map id' (run [Add 5 ''iPhone'' ''Iphone.png'', Remove ''5'',
                              Add 5 ''AirPods'' ''Airpods.png'']))
   \<and> distinct (clocks [Add 5 ''iPhone'' ''Iphone.png'', Add 6 ''AirPods'' ''Airpods.png'',
                       Remove ''5'', Add 7 ''Max'' ''AirpodsMax.png''])
   \<and> distinct (map id' (run [Add 5 ''iPhone'' ''Iphone.png'', Add 6 ''AirPods'' ''Airpods.png'',
                              Remove ''5'', Add 7 ''Max'' ''AirpodsMax.png'']))
   \<and> subseq (run [Add 5 ''iPhone'' ''Iphone.png'', Add 6 ''AirPods'' ''Airpods.png'',
                  Remove ''5'', Add 7 ''Max'' ''AirpodsMax.png''])
        (inserted [Add 5 ''iPhone'' ''Iphone.png'', Add 6 ''AirPods'' ''Airpods.png'',
                   Remove ''5'', Add 7 ''Max'' ''AirpodsMax.png''])
   \<and> run [Add 5 ''iPhone'' ''Iphone.png'', Add 6 ''AirPods'' ''Airpods.png'',
           Remove ''5'', Add 7 ''Max'' ''AirpodsMax.png'']
      = [\<lparr>id' = ''6'', name = ''AirPods'', icon = ''Airpods.png''\<rparr>,
         \<lparr>id' = ''7'', name = ''Max'', icon = ''AirpodsMax.png''\<rparr>]"
proof -
  have f: "freshAdds [] [Add 5 ''iPhone'' ''Iphone.png'', Remove ''5'',
                         Add 5 ''AirPods'' ''Airpods.png'']"
    by code_simp
  have h: "distinct (clocks [Add 5 ''iPhone'' ''Iphone.png'', Add 6 ''AirPods'' ''Airpods.png'',
                     Remove ''5'', Add 7 ''Max'' ''AirpodsMax.png''])"
    by simp
  have r: "run [Add 5 ''iPhone'' ''Iphone.png'', Add 6 ''AirPods'' ''Airpods.png'',
           Remove ''5'', Add 7 ''Max'' ''AirpodsMax.png'']
      = [\<lparr>id' = ''6'', name = ''AirPods'', icon = ''Airpods.png''\<rparr>,
         \<lparr>id' = ''7'', name = ''Max'', icon = ''AirpodsMax.png''\<rparr>]"
    by code_simp
  have c1: "distinct (map id' (run [Add 5 ''iPhone'' ''Iphone.png'', Remove ''5'',
                              Add 5 ''AirPods'' ''Airpods.png'']))"
    using run_ids_distinct
      [of "[Add 5 ''iPhone'' ''Iphone.png'', Remove ''5'', Add 5 ''AirPods'' ''Airpods.png'']"] f
    by blast
  note t = run_ids_distinct
      [of "[Add 5 ''iPhone'' ''Iphone.png'', Add 6 ''AirPods'' ''Airpods.png'',
            Remove ''5'', Add 7 ''Max'' ''AirpodsMax.png'']"]
  have c2: "distinct (map id' (run [Add 5 ''iPhone'' ''Iphone.png'', Add 6 ''AirPods'' ''Airpods.png'',
                              Remove ''5'', Add 7 ''Max'' ''AirpodsMax.png'']))"
    using t h by blast
  have c3: "subseq (run [Add 5 ''iPhone'' ''Iphone.png'', Add 6 ''AirPods'' ''Airpods.png'',
                  Remove ''5'', Add 7 ''Max'' ''AirpodsMax.png''])
        (inserted [Add 5 ''iPhone'' ''Iphone.png'', Add 6 ''AirPods'' ''Airpods.png'',
                   Remove ''5'', Add 7 ''Max'' ''AirpodsMax.png''])"
    using t by blast
  from f h r c1 c2 c3 show ?thesis by blast
qed

text \<open>
  C4 as the claim words it fails: two adds at the same reading of the clock give two
  devices with the same id.
\<close>

theorem run_same_clock_same_id:
  "\<not> distinct (map id' (run [Add 5 ''iPhone'' ''Iphone.png'', Add 5 ''AirPods'' ''Airpods.png'']))"
  by code_simp

end
